theory Spec2Isabelle
  imports Complex_Main "HOL-Library.AList"
begin

section \<open>The ToolTip controller of tk_tooltip (src/main.py)\<close>

text \<open>
  The embedding follows the class \<^verbatim>\<open>ToolTip\<close> of \<^verbatim>\<open>src/main.py\<close> method by method.
  Naming: a leading underscore of the source (\<^verbatim>\<open>_opts\<close>, \<^verbatim>\<open>_id\<close>, \<^verbatim>\<open>_show\<close>) is written as a
  trailing prime (\<open>opts'\<close>, \<open>id'\<close>, \<open>show'\<close>), since an Isabelle name cannot start with an
  underscore; \<^verbatim>\<open>__init__\<close> is \<open>init\<close>.

  Python values that the option dictionary can hold are the datatype \<open>pyval\<close>; a dictionary
  is an association list in insertion order, as a Python 3 \<^verbatim>\<open>dict\<close> is. Exceptions are values of
  the datatype \<open>error\<close>. Every method that mutates the controller or the toolkit takes the pair
  of both and returns it updated, together with its outcome; the state is returned also when
  the method raises, since the mutations made before the \<^verbatim>\<open>raise\<close> stay.
\<close>

subsection \<open>Python values and exceptions\<close>

datatype pyval =
    PyNone
  | PyInt int
  | PyStr string
  | PyObj nat
  | PyDict "(string \<times> pyval) list"

type_synonym dict = "(string \<times> pyval) list"

text \<open>Truth value of a Python object, as \<^verbatim>\<open>if v:\<close> tests it. An opaque object (a font, a
  \<^verbatim>\<open>StringVar\<close>) is true.\<close>

fun truthy :: "pyval \<Rightarrow> bool" where
  "truthy PyNone = False"
| "truthy (PyInt n) = (n \<noteq> 0)"
| "truthy (PyStr s) = (s \<noteq> [])"
| "truthy (PyObj _) = True"
| "truthy (PyDict d) = (d \<noteq> [])"

datatype error =
    TypeError string
  | KeyError string
  | AttributeError string

text \<open>\<^verbatim>\<open>d[k]\<close>: a missing key raises \<^verbatim>\<open>KeyError\<close>.\<close>

definition getitem :: "dict \<Rightarrow> string \<Rightarrow> error + pyval" where
  "getitem d k = (case map_of d k of None \<Rightarrow> Inl (KeyError k) | Some v \<Rightarrow> Inr v)"

text \<open>\<^verbatim>\<open>del d[k]\<close> for each \<open>k\<close> of a tuple of keys, in order; a missing key raises.\<close>

fun delitems :: "dict \<Rightarrow> string list \<Rightarrow> error + dict" where
  "delitems d [] = Inr d"
| "delitems d (k # ks) =
     (if k \<in> set (map fst d) then delitems (AList.delete k d) ks else Inl (KeyError k))"

subsection \<open>The toolkit\<close>

text \<open>
  The part of Tk that the controller acts on: the event bindings on the master widget, the
  pending \<^verbatim>\<open>after\<close> callbacks (handle and delay), and the live \<^verbatim>\<open>Toplevel\<close> windows. Handles are
  drawn from counters, so \<open>next_timer\<close> and \<open>next_toplevel\<close> also count how many timers
  were ever scheduled and how many windows were ever created. An \<^verbatim>\<open>after\<close> handle is a
  non-empty string (\<^verbatim>\<open>after#12\<close>) in Tk and a widget object defines no truth value of its own,
  so both are true whenever they are not \<^verbatim>\<open>None\<close>; the handle fields are options.
  Toolkit calls are taken to succeed (no \<^verbatim>\<open>TclError\<close>).
\<close>

datatype handler = Bound_enter | Bound_leave | Bound_motion

record window =
  geometry :: "(int \<times> int) option"
  mapped :: bool
  overrideredirect :: bool
  labels :: "dict list"

record toolkit =
  bindings :: "(string \<times> handler) list"
  timers :: "(nat \<times> pyval) list"
  next_timer :: nat
  toplevels :: "(nat \<times> window) list"
  next_toplevel :: nat

text \<open>The answers of the \<^verbatim>\<open>winfo_*\<close> queries at the moment of a call; Tk reports them as
  integers.\<close>

record winfo =
  winfo_reqwidth :: int
  winfo_reqheight :: int
  winfo_screenwidth :: int
  winfo_screenheight :: int
  winfo_rooty :: int
  winfo_height :: int
  winfo_pointerx :: int
  winfo_pointery :: int

definition bind :: "string \<Rightarrow> handler \<Rightarrow> toolkit \<Rightarrow> toolkit" where
  \<comment> \<open>\<^verbatim>\<open>master.bind(sequence, func, '+')\<close>: the handler is added to those already bound\<close>
  "bind sq h tk = tk\<lparr>bindings := bindings tk @ [(sq, h)]\<rparr>"

definition after :: "pyval \<Rightarrow> toolkit \<Rightarrow> nat \<times> toolkit" where
  "after ms tk =
     (next_timer tk,
      tk\<lparr>timers := timers tk @ [(next_timer tk, ms)], next_timer := Suc (next_timer tk)\<rparr>)"

definition after_cancel :: "nat \<Rightarrow> toolkit \<Rightarrow> toolkit" where
  \<comment> \<open>cancelling a handle that has expired or was cancelled before does nothing\<close>
  "after_cancel i tk = tk\<lparr>timers := filter (\<lambda>t. fst t \<noteq> i) (timers tk)\<rparr>"

definition Toplevel :: "toolkit \<Rightarrow> nat \<times> toolkit" where
  "Toplevel tk =
     (next_toplevel tk,
      tk\<lparr>toplevels := toplevels tk @
            [(next_toplevel tk,
              \<lparr>geometry = None, mapped = True, overrideredirect = False, labels = []\<rparr>)],
         next_toplevel := Suc (next_toplevel tk)\<rparr>)"

definition on_window :: "nat \<Rightarrow> (window \<Rightarrow> window) \<Rightarrow> toolkit \<Rightarrow> toolkit" where
  \<comment> \<open>a window method applied to the live window with that handle\<close>
  "on_window tw f tk = tk\<lparr>toplevels := AList.map_entry tw f (toplevels tk)\<rparr>"

definition withdraw :: "nat \<Rightarrow> toolkit \<Rightarrow> toolkit" where
  "withdraw tw = on_window tw (\<lambda>win. win\<lparr>mapped := False\<rparr>)"

definition deiconify :: "nat \<Rightarrow> toolkit \<Rightarrow> toolkit" where
  "deiconify tw = on_window tw (\<lambda>win. win\<lparr>mapped := True\<rparr>)"

definition wm_overrideredirect :: "nat \<Rightarrow> bool \<Rightarrow> toolkit \<Rightarrow> toolkit" where
  "wm_overrideredirect tw b = on_window tw (\<lambda>win. win\<lparr>overrideredirect := b\<rparr>)"

definition wm_geometry :: "nat \<Rightarrow> int \<times> int \<Rightarrow> toolkit \<Rightarrow> toolkit" where
  "wm_geometry tw pos = on_window tw (\<lambda>win. win\<lparr>geometry := Some pos\<rparr>)"

definition pack_label :: "nat \<Rightarrow> dict \<Rightarrow> toolkit \<Rightarrow> toolkit" where
  \<comment> \<open>\<^verbatim>\<open>tk.Label(tw, **opts).pack()\<close>\<close>
  "pack_label tw d = on_window tw (\<lambda>win. win\<lparr>labels := labels win @ [d]\<rparr>)"

definition destroy :: "nat \<Rightarrow> toolkit \<Rightarrow> toolkit" where
  "destroy tw tk = tk\<lparr>toplevels := AList.delete tw (toplevels tk)\<rparr>"

definition fmt_d :: "rat \<Rightarrow> int" where
  \<comment> \<open>\<^verbatim>\<open>"%d" % x\<close> of a number: the fraction is cut off towards zero\<close>
  "fmt_d x = (if 0 \<le> x then \<lfloor>x\<rfloor> else \<lceil>x\<rceil>)"

subsection \<open>The controller\<close>

record ToolTip =
  master :: string
  opts' :: dict
  tipwindow' :: "nat option"
  id' :: "nat option"
  follow_mouse' :: bool

type_synonym sys = "ToolTip \<times> toolkit"

text \<open>
  \<^verbatim>\<open>configure(**opts)\<close> walks the keyword arguments in the order of the call. For a key that
  \<^verbatim>\<open>_opts\<close> does not hold, the source binds a string to the local name \<^verbatim>\<open>KeyError\<close> and raises
  that string; Python 3 refuses to raise a string and raises
  \<^verbatim>\<open>TypeError: exceptions must derive from BaseException\<close> in its place. The keys handled
  before stay updated. The method has no \<^verbatim>\<open>return\<close> statement: it returns \<^verbatim>\<open>None\<close>.
\<close>

fun configure :: "ToolTip \<Rightarrow> dict \<Rightarrow> (error + pyval) \<times> ToolTip" where
  "configure s [] = (Inr PyNone, s)"
| "configure s ((key, v) # kw) =
     (if key \<in> set (map fst (opts' s))
      then configure (s\<lparr>opts' := AList.update key v (opts' s)\<rparr>) kw
      else (Inl (TypeError ''exceptions must derive from BaseException''), s))"

text \<open>
  \<^verbatim>\<open>coords()\<close>. The y coordinate is an integer. The x coordinate comes from the true division
  \<^verbatim>\<open>twx / 2\<close> and is a Python float; it is modelled as a rational number, which is exact for
  every half-integer that a float holds exactly, so for all coordinates that Tk (whose
  coordinates are C integers) can report. Called without a tip window, the first query
  \<^verbatim>\<open>tw.winfo_reqwidth()\<close> on \<^verbatim>\<open>None\<close> raises \<^verbatim>\<open>AttributeError\<close>.
\<close>

definition coords :: "ToolTip \<Rightarrow> winfo \<Rightarrow> error + (rat \<times> int)" where
  "coords s g =
     (case tipwindow' s of
        None \<Rightarrow> Inl (AttributeError ''winfo_reqwidth'')
      | Some tw \<Rightarrow>
          let twx = winfo_reqwidth g; twy = winfo_reqheight g;
              w = winfo_screenwidth g; h = winfo_screenheight g;
              y = (if follow_mouse' s
                   then (let y = winfo_pointery g + 20
                         in if y + twy > h then y - twy - 30 else y)
                   else (let y = winfo_rooty g + winfo_height g + 3
                         in if y + twy > h then winfo_rooty g - twy - 3 else y));
              x = of_int (winfo_pointerx g) - of_int twx / 2;
              x = (if x < 0 then 0
                   else if x + of_int twx > of_int w then of_int (w - twx)
                   else x)
          in Inr (x, y))"

text \<open>
  \<^verbatim>\<open>create_contents()\<close>: a copy of the options without the three keys that are the
  controller's own goes to a label packed into the tip window. Without a tip window the
  label would go to Tk's default root, which the model does not track.
\<close>

definition create_contents :: "sys \<Rightarrow> (error + unit) \<times> sys" where
  "create_contents st =
     (case st of (s, tk) \<Rightarrow>
        (case delitems (opts' s) [''delay'', ''follow_mouse'', ''state''] of
           Inl e \<Rightarrow> (Inl e, s, tk)
         | Inr d \<Rightarrow>
             (case tipwindow' s of
                None \<Rightarrow> (Inr (), s, tk)
              | Some tw \<Rightarrow> (Inr (), s, pack_label tw d tk))))"

definition unschedule' :: "sys \<Rightarrow> sys" where
  "unschedule' st =
     (case st of (s, tk) \<Rightarrow>
        (case id' s of
           None \<Rightarrow> (s\<lparr>id' := None\<rparr>, tk)
         | Some i \<Rightarrow> (s\<lparr>id' := None\<rparr>, after_cancel i tk)))"

definition schedule' :: "sys \<Rightarrow> (error + unit) \<times> sys" where
  "schedule' st =
     (case unschedule' st of (s, tk) \<Rightarrow>
        (case getitem (opts' s) ''state'' of
           Inl e \<Rightarrow> (Inl e, s, tk)
         | Inr v \<Rightarrow>
             if v = PyStr ''disabled'' then (Inr (), s, tk)
             else (case getitem (opts' s) ''delay'' of
                     Inl e \<Rightarrow> (Inl e, s, tk)
                   | Inr ms \<Rightarrow>
                       (case after ms tk of (i, tk') \<Rightarrow> (Inr (), s\<lparr>id' := Some i\<rparr>, tk')))))"

definition hide' :: "sys \<Rightarrow> sys" where
  "hide' st =
     (case st of (s, tk) \<Rightarrow>
        (case tipwindow' s of
           None \<Rightarrow> (s\<lparr>tipwindow' := None\<rparr>, tk)
         | Some tw \<Rightarrow> (s\<lparr>tipwindow' := None\<rparr>, destroy tw tk)))"

text \<open>
  \<^verbatim>\<open>_show()\<close>, the callback of the timer. The geometry \<open>g\<close> is what the toolkit answers once
  the contents are laid out. The call that sets the window style on macOS changes nothing the
  controller reads and is left out.
\<close>

definition show' :: "winfo \<Rightarrow> sys \<Rightarrow> (error + unit) \<times> sys" where
  "show' g st =
     (case st of (s, tk) \<Rightarrow>
        (case getitem (opts' s) ''state'' of
           Inl e \<Rightarrow> (Inl e, s, tk)
         | Inr v \<Rightarrow>
             if v = PyStr ''disabled'' then (Inr (), unschedule' (s, tk))
             else (case tipwindow' s of
                     Some _ \<Rightarrow> (Inr (), s, tk)
                   | None \<Rightarrow>
                       (case Toplevel tk of (tw, tk1) \<Rightarrow>
                          let s1 = s\<lparr>tipwindow' := Some tw\<rparr>;
                              tk2 = wm_overrideredirect tw True (withdraw tw tk1)
                          in (case create_contents (s1, tk2) of
                                (Inl e, st') \<Rightarrow> (Inl e, st')
                              | (Inr _, (s2, tk3)) \<Rightarrow>
                                  (case coords s2 g of
                                     Inl e \<Rightarrow> (Inl e, s2, tk3)
                                   | Inr (x, y) \<Rightarrow>
                                       (Inr (), s2,
                                        deiconify tw (wm_geometry tw (fmt_d x, y) tk3))))))))"

definition enter :: "sys \<Rightarrow> (error + unit) \<times> sys" where
  "enter st = schedule' st"

definition leave :: "sys \<Rightarrow> (error + unit) \<times> sys" where
  "leave st = (Inr (), hide' (unschedule' st))"

definition motion :: "winfo \<Rightarrow> sys \<Rightarrow> (error + unit) \<times> sys" where
  "motion g st =
     (case st of (s, tk) \<Rightarrow>
        (case tipwindow' s of
           None \<Rightarrow> (Inr (), s, tk)
         | Some tw \<Rightarrow>
             if follow_mouse' s
             then (case coords s g of
                     Inl e \<Rightarrow> (Inl e, s, tk)
                   | Inr (x, y) \<Rightarrow> (Inr (), s, wm_geometry tw (fmt_d x, y) tk))
             else (Inr (), s, tk)))"

text \<open>
  The constructor. \<^verbatim>\<open>configure(**opts)\<close> runs first, so an unknown keyword leaves the
  constructor before anything is bound. The function ids that \<^verbatim>\<open>bind\<close> returns
  (\<^verbatim>\<open>_id1\<close> to \<^verbatim>\<open>_id4\<close>) are never read again and are not kept.
\<close>

definition defaults :: "pyval \<Rightarrow> pyval \<Rightarrow> dict" where
  "defaults text delay =
     [(''anchor'', PyStr ''center''),
      (''bd'', PyInt 1),
      (''bg'', PyStr ''lightyellow''),
      (''delay'', delay),
      (''fg'', PyStr ''black''),
      (''follow_mouse'', PyInt 0),
      (''font'', PyNone),
      (''justify'', PyStr ''left''),
      (''padx'', PyInt 4),
      (''pady'', PyInt 2),
      (''relief'', PyStr ''solid''),
      (''state'', PyStr ''normal''),
      (''text'', text),
      (''textvariable'', PyNone),
      (''width'', PyInt 0),
      (''wraplength'', PyInt 150)]"

definition init :: "string \<Rightarrow> pyval \<Rightarrow> pyval \<Rightarrow> dict \<Rightarrow> toolkit \<Rightarrow> (error + ToolTip) \<times> toolkit" where
  "init m text delay kw tk =
     (let s0 = \<lparr>master = m, opts' = defaults text delay, tipwindow' = None, id' = None,
                follow_mouse' = False\<rparr>
      in (case configure s0 kw of
            (Inl e, _) \<Rightarrow> (Inl e, tk)
          | (Inr _, s1) \<Rightarrow>
              let tk1 = bind ''<ButtonPress>'' Bound_leave
                          (bind ''<Leave>'' Bound_leave (bind ''<Enter>'' Bound_enter tk))
              in (case getitem (opts' s1) ''follow_mouse'' of
                    Inl e \<Rightarrow> (Inl e, tk1)
                  | Inr v \<Rightarrow>
                      if truthy v
                      then (Inr (s1\<lparr>follow_mouse' := True\<rparr>), bind ''<Motion>'' Bound_motion tk1)
                      else (Inr s1, tk1))))"

subsection \<open>Events\<close>

text \<open>
  What can happen to a controller during the main loop: the toolkit delivers an event of
  some sequence to the master widget and runs the handlers bound to it, a pending timer
  expires and the toolkit runs \<^verbatim>\<open>_show\<close>, or the application calls \<^verbatim>\<open>configure\<close>. An
  exception in a callback is reported by tkinter and the main loop goes on with the state as
  the callback left it. An expiring timer is no longer pending when its callback runs.
\<close>

datatype event =
    Deliver string winfo
  | Expire nat winfo
  | Configure dict

fun call :: "handler \<Rightarrow> winfo \<Rightarrow> sys \<Rightarrow> (error + unit) \<times> sys" where
  "call Bound_enter g st = enter st"
| "call Bound_leave g st = leave st"
| "call Bound_motion g st = motion g st"

fun dispatch :: "(string \<times> handler) list \<Rightarrow> string \<Rightarrow> winfo \<Rightarrow> sys \<Rightarrow> sys" where
  "dispatch [] sq g st = st"
| "dispatch ((q, h) # bs) sq g st =
     dispatch bs sq g (if q = sq then snd (call h g st) else st)"

fun step :: "event \<Rightarrow> sys \<Rightarrow> sys" where
  "step (Deliver sq g) st = dispatch (bindings (snd st)) sq g st"
| "step (Expire i g) st =
     (case st of (s, tk) \<Rightarrow>
        if i \<in> set (map fst (timers tk)) then snd (show' g (s, after_cancel i tk)) else (s, tk))"
| "step (Configure kw) st = (case st of (s, tk) \<Rightarrow> (snd (configure s kw), tk))"

fun run :: "event list \<Rightarrow> sys \<Rightarrow> sys" where
  "run [] st = st"
| "run (e # es) st = run es (step e st)"

definition tk0 :: toolkit where
  \<comment> \<open>a toolkit in which nothing was bound, scheduled or created yet\<close>
  "tk0 = \<lparr>bindings = [], timers = [], next_timer = 0, toplevels = [], next_toplevel = 0\<rparr>"

subsection \<open>Notions used by the properties\<close>

text \<open>The \<^verbatim>\<open>state\<close> option reads \<^verbatim>\<open>'disabled'\<close>: the test of \<^verbatim>\<open>_schedule\<close> and \<^verbatim>\<open>_show\<close>.\<close>

definition is_disabled :: "ToolTip \<Rightarrow> bool" where
  "is_disabled s = (getitem (opts' s) ''state'' = Inr (PyStr ''disabled''))"

text \<open>The events at which a tip could be started: the pointer entering and a timer expiring.\<close>

fun trigger :: "event \<Rightarrow> bool" where
  "trigger (Deliver sq g) = (sq = ''<Enter>'')"
| "trigger (Expire i g) = True"
| "trigger (Configure kw) = False"

text \<open>Along the run of \<open>es\<close> from \<open>st\<close>, the controller is disabled whenever a trigger
  arrives.\<close>

fun disabled_throughout :: "event list \<Rightarrow> sys \<Rightarrow> bool" where
  "disabled_throughout [] st = True"
| "disabled_throughout (e # es) st =
     ((if trigger e then is_disabled (fst st) else True) \<and> disabled_throughout es (step e st))"

text \<open>The state IDLE of the specification: neither handle is set, no timer is pending and no
  tip window is alive.\<close>

definition idle :: "sys \<Rightarrow> bool" where
  "idle st = (tipwindow' (fst st) = None \<and> id' (fst st) = None \<and>
              timers (snd st) = [] \<and> toplevels (snd st) = [])"

definition option_keys :: "string list" where
  "option_keys =
     [''anchor'', ''bd'', ''bg'', ''delay'', ''fg'', ''follow_mouse'', ''font'', ''justify'',
      ''padx'', ''pady'', ''relief'', ''state'', ''text'', ''textvariable'', ''width'',
      ''wraplength'']"

fun handles :: "nat option \<Rightarrow> nat list" where
  "handles None = []"
| "handles (Some i) = [i]"

text \<open>
  What holds of a controller and its toolkit from the constructor on: the option dictionary
  keeps its sixteen keys (so no subscript of \<^verbatim>\<open>_opts\<close> raises), the bindings are those of the
  constructor, every pending timer is the one \<^verbatim>\<open>_id\<close> names, \<^verbatim>\<open>_id\<close> names a handle that was
  handed out, and the live tip windows are exactly the one \<^verbatim>\<open>_tipwindow\<close> names.
\<close>

definition consistent :: "sys \<Rightarrow> bool" where
  "consistent st =
     (case st of (s, tk) \<Rightarrow>
        map fst (opts' s) = option_keys \<and>
        bindings tk =
          [(''<Enter>'', Bound_enter), (''<Leave>'', Bound_leave),
           (''<ButtonPress>'', Bound_leave)] @
          (if follow_mouse' s then [(''<Motion>'', Bound_motion)] else []) \<and>
        (map fst (timers tk) = [] \<or> map fst (timers tk) = handles (id' s)) \<and>
        (\<forall>i \<in> set (handles (id' s)). i < next_timer tk) \<and>
        map fst (toplevels tk) = handles (tipwindow' s))"

subsection \<open>Concrete controllers, geometries and event sequences\<close>

text \<open>The controller that \<^verbatim>\<open>ToolTip(b, text='Enough of this')\<close> of the demo builds, and the
  toolkit after its three bindings.\<close>

definition tip0 :: ToolTip where
  "tip0 = \<lparr>master = ''.b'', opts' = defaults (PyStr ''Enough of this'') (PyInt 1500),
            tipwindow' = None, id' = None, follow_mouse' = False\<rparr>"

definition tkb :: toolkit where
  "tkb = \<lparr>bindings = [(''<Enter>'', Bound_enter), (''<Leave>'', Bound_leave),
                      (''<ButtonPress>'', Bound_leave)],
          timers = [], next_timer = 0, toplevels = [], next_toplevel = 0\<rparr>"

text \<open>A controller whose tip window 0 is up, built with \<^verbatim>\<open>follow_mouse\<close> as given.\<close>

definition shown_tip :: "bool \<Rightarrow> ToolTip" where
  "shown_tip fm =
     tip0\<lparr>opts' := AList.update ''follow_mouse'' (PyInt (if fm then 1 else 0)) (opts' tip0),
          tipwindow' := Some 0, id' := Some 0, follow_mouse' := fm\<rparr>"

text \<open>Scenario 6 of the specification: screen 1000 x 800, popup 100 x 30, pointer at (950, 780).\<close>

definition scenario6 :: winfo where
  "scenario6 = \<lparr>winfo_reqwidth = 100, winfo_reqheight = 30, winfo_screenwidth = 1000,
     winfo_screenheight = 800, winfo_rooty = 770, winfo_height = 20,
     winfo_pointerx = 950, winfo_pointery = 780\<rparr>"

text \<open>Scenario 7 of the specification: parent at y = 100 of height 20, popup height 30, screen
  height 800.\<close>

definition scenario7 :: winfo where
  "scenario7 = \<lparr>winfo_reqwidth = 80, winfo_reqheight = 30, winfo_screenwidth = 1000,
     winfo_screenheight = 800, winfo_rooty = 100, winfo_height = 20,
     winfo_pointerx = 300, winfo_pointery = 110\<rparr>"

text \<open>A popup of width 200 on a screen of width 100, the pointer at x = 150.\<close>

definition wide_popup :: winfo where
  "wide_popup = \<lparr>winfo_reqwidth = 200, winfo_reqheight = 30, winfo_screenwidth = 100,
     winfo_screenheight = 800, winfo_rooty = 100, winfo_height = 20,
     winfo_pointerx = 150, winfo_pointery = 110\<rparr>"

text \<open>Hovering until the tip is up.\<close>

definition hover :: "event list" where
  "hover = [Deliver ''<Enter>'' scenario7, Expire 0 scenario7]"

text \<open>The pointer enters, and the application disables the tip while the timer is pending.\<close>

definition enter_then_disable :: "event list" where
  "enter_then_disable =
     [Deliver ''<Enter>'' scenario7, Configure [(''state'', PyStr ''disabled'')]]"

text \<open>The application disables the tip; then the pointer enters, moves, leaves and enters
  again.\<close>

definition disabled_visit :: "event list" where
  "disabled_visit =
     [Configure [(''state'', PyStr ''disabled'')], Deliver ''<Enter>'' scenario7,
      Expire 0 scenario7, Deliver ''<Motion>'' scenario7, Deliver ''<Leave>'' scenario7,
      Deliver ''<Enter>'' scenario7]"

text \<open>The tip is up, the pointer enters once more, and the application disables the tip
  while the second timer is pending.\<close>

definition shown_then_disable :: "event list" where
  "shown_then_disable =
     [Deliver ''<Enter>'' scenario7, Expire 0 scenario7, Deliver ''<Enter>'' scenario7,
      Configure [(''state'', PyStr ''disabled'')]]"

text \<open>The application sets the \<^verbatim>\<open>follow_mouse\<close> option after construction, and the pointer
  hovers and moves.\<close>

definition set_follow_later :: "event list" where
  "set_follow_later =
     [Configure [(''follow_mouse'', PyInt 1)], Deliver ''<Enter>'' scenario7,
      Expire 0 scenario7, Deliver ''<Motion>'' scenario6]"

section \<open>Auxiliary facts\<close>

subsection \<open>\<^verbatim>\<open>configure\<close> touches the option values only\<close>

lemma configure_fields:
  "master (snd (configure s kw)) = master s \<and>
   tipwindow' (snd (configure s kw)) = tipwindow' s \<and>
   id' (snd (configure s kw)) = id' s \<and>
   follow_mouse' (snd (configure s kw)) = follow_mouse' s \<and>
   map fst (opts' (snd (configure s kw))) = map fst (opts' s)"
proof (induction s kw rule: configure.induct)
  case (1 s)
  show ?case by simp
next
  case (2 s key v kw)
  show ?case
  proof (cases "key \<in> set (map fst (opts' s))")
    case True
    have "map fst (AList.update key v (opts' s)) = map fst (opts' s)"
      using True by (simp add: update_keys)
    with 2 True show ?thesis by simp
  next
    case False
    then show ?thesis by simp
  qed
qed

text \<open>With recognised keys only, \<^verbatim>\<open>configure\<close> raises nothing and returns \<^verbatim>\<open>None\<close>; with any
  other key among them it raises, whatever the controller.\<close>

lemma configure_known_keys:
  "set (map fst kw) \<subseteq> set (map fst (opts' s)) \<Longrightarrow> fst (configure s kw) = Inr PyNone"
proof (induction s kw rule: configure.induct)
  case (1 s)
  show ?case by simp
next
  case (2 s key v kw)
  from "2.prems" have k: "key \<in> set (map fst (opts' s))" by simp
  have "map fst (AList.update key v (opts' s)) = map fst (opts' s)"
    using k by (simp add: update_keys)
  with 2 k show ?case by simp
qed

lemma configure_unknown_key:
  "\<not> set (map fst kw) \<subseteq> set (map fst (opts' s)) \<Longrightarrow>
   fst (configure s kw) = Inl (TypeError ''exceptions must derive from BaseException'')"
proof (induction s kw rule: configure.induct)
  case (1 s)
  then show ?case by simp
next
  case (2 s key v kw)
  show ?case
  proof (cases "key \<in> set (map fst (opts' s))")
    case True
    have "map fst (AList.update key v (opts' s)) = map fst (opts' s)"
      using True by (simp add: update_keys)
    with 2 True show ?thesis by simp
  next
    case False
    then show ?thesis by simp
  qed
qed

subsection \<open>Every method keeps the controller and the toolkit consistent\<close>

lemma consistent_configure: "consistent (s, tk) \<Longrightarrow> consistent (snd (configure s kw), tk)"
  using configure_fields [of s kw] by (simp add: consistent_def)

lemma consistent_unschedule: "consistent st \<Longrightarrow> consistent (unschedule' st)"
  by (cases st) (auto simp: consistent_def unschedule'_def after_cancel_def
      split: option.splits list.splits)

lemma timers_unschedule: "consistent st \<Longrightarrow> timers (snd (unschedule' st)) = []"
  by (cases st) (auto simp: consistent_def unschedule'_def after_cancel_def
      split: option.splits list.splits)

lemma consistent_hide: "consistent st \<Longrightarrow> consistent (hide' st)"
  by (cases st) (auto simp: consistent_def hide'_def destroy_def delete_keys
      split: option.splits)

lemma consistent_schedule: "consistent st \<Longrightarrow> consistent (snd (schedule' st))"
proof -
  assume c: "consistent st"
  obtain s tk where u: "unschedule' st = (s, tk)" by (cases "unschedule' st")
  from c have cu: "consistent (s, tk)" and t: "timers tk = []"
    using consistent_unschedule [of st] timers_unschedule [of st] u by simp_all
  show ?thesis
    using cu t
    by (auto simp: schedule'_def u after_def consistent_def split: sum.splits)
qed

lemma consistent_leave: "consistent st \<Longrightarrow> consistent (snd (leave st))"
  by (simp add: leave_def consistent_hide consistent_unschedule)

lemma keys_on_window: "map fst (toplevels (on_window tw f tk)) = map fst (toplevels tk)"
proof -
  have "map fst (AList.map_entry tw f xs) = map fst xs" for xs
    by (induction xs) auto
  then show ?thesis by (simp add: on_window_def)
qed

lemma on_window_fields:
  "bindings (on_window tw f tk) = bindings tk"
  "timers (on_window tw f tk) = timers tk"
  "next_timer (on_window tw f tk) = next_timer tk"
  "next_toplevel (on_window tw f tk) = next_toplevel tk"
  by (simp_all add: on_window_def)

lemmas window_ops = withdraw_def deiconify_def wm_overrideredirect_def wm_geometry_def
  pack_label_def

lemma consistent_on_window: "consistent (s, tk) \<Longrightarrow> consistent (s, on_window tw f tk)"
  by (simp add: consistent_def keys_on_window on_window_fields)

lemma consistent_motion: "consistent st \<Longrightarrow> consistent (snd (motion g st))"
  by (cases st)
     (auto simp: motion_def window_ops consistent_on_window
           split: option.splits sum.splits prod.splits)

lemma create_contents_effect:
  "create_contents (s, tk) = (r, s', tk') \<Longrightarrow>
     s' = s \<and> (tk' = tk \<or> (\<exists>tw d. tk' = on_window tw (\<lambda>win. win\<lparr>labels := labels win @ [d]\<rparr>) tk))"
  by (auto simp: create_contents_def pack_label_def split: sum.splits option.splits)

lemma consistent_create_contents:
  "consistent st \<Longrightarrow> consistent (snd (create_contents st))"
proof -
  assume c: "consistent st"
  obtain s tk where st: "st = (s, tk)" by (cases st)
  obtain r s' tk' where cc: "create_contents (s, tk) = (r, s', tk')"
    by (cases "create_contents (s, tk)") auto
  from create_contents_effect [OF cc] c st show ?thesis
    by (auto simp: cc consistent_on_window)
qed

lemma consistent_Toplevel:
  assumes "consistent (s, tk)" and "tipwindow' s = None" and "Toplevel tk = (tw, tk1)"
  shows "consistent (s\<lparr>tipwindow' := Some tw\<rparr>, tk1)"
  using assms by (auto simp: consistent_def Toplevel_def)

lemma consistent_show: "consistent st \<Longrightarrow> consistent (snd (show' g st))"
proof -
  assume c: "consistent st"
  obtain s tk where st: "st = (s, tk)" by (cases st)
  show ?thesis
  proof (cases "getitem (opts' s) ''state''")
    case (Inl e)
    with c st show ?thesis by (simp add: show'_def)
  next
    case (Inr v)
    show ?thesis
    proof (cases "v = PyStr ''disabled''")
      case True
      with c st Inr show ?thesis
        using consistent_unschedule [of "(s, tk)"] by (simp add: show'_def)
    next
      case False
      show ?thesis
      proof (cases "tipwindow' s")
        case (Some tw)
        with c st Inr False show ?thesis by (simp add: show'_def)
      next
        case None
        obtain tw tk1 where T: "Toplevel tk = (tw, tk1)" by (cases "Toplevel tk")
        define s1 where "s1 = s\<lparr>tipwindow' := Some tw\<rparr>"
        define tk2 where "tk2 = wm_overrideredirect tw True (withdraw tw tk1)"
        have c1: "consistent (s1, tk1)"
          using consistent_Toplevel [OF _ None T] c st by (simp add: s1_def)
        then have c2: "consistent (s1, tk2)"
          by (simp add: tk2_def window_ops consistent_on_window)
        obtain r s2 tk3 where cc: "create_contents (s1, tk2) = (r, s2, tk3)"
          by (cases "create_contents (s1, tk2)") auto
        have c3: "consistent (s2, tk3)"
          using consistent_create_contents [OF c2] cc by simp
        have "snd (show' g (s, tk)) = (s2, tk3) \<or>
              (\<exists>p. snd (show' g (s, tk)) = (s2, deiconify tw (wm_geometry tw p tk3)))"
          using Inr False None T cc
          by (auto simp: show'_def s1_def tk2_def Let_def split: sum.splits)
        with c3 st show ?thesis
          by (auto simp: window_ops consistent_on_window)
      qed
    qed
  qed
qed

lemma consistent_call: "consistent st \<Longrightarrow> consistent (snd (call h g st))"
  by (cases h) (simp_all add: enter_def consistent_schedule consistent_leave consistent_motion)

lemma consistent_dispatch: "consistent st \<Longrightarrow> consistent (dispatch bs sq g st)"
  by (induction bs sq g st rule: dispatch.induct) (simp_all add: consistent_call)

lemma filter_handles: "map fst ts = handles h \<Longrightarrow> filter P ts = [] \<or> filter P ts = ts"
  by (cases h; cases ts) auto

lemma consistent_after_cancel: "consistent (s, tk) \<Longrightarrow> consistent (s, after_cancel i tk)"
  using filter_handles [of "timers tk" "id' s" "\<lambda>t. fst t \<noteq> i"]
  by (auto simp: consistent_def after_cancel_def)

lemma consistent_step: "consistent st \<Longrightarrow> consistent (step e st)"
proof (cases e)
  case (Deliver sq g)
  assume "consistent st"
  then show ?thesis by (simp add: Deliver consistent_dispatch)
next
  case (Expire i g)
  assume c: "consistent st"
  obtain s tk where st: "st = (s, tk)" by (cases st)
  from c st show ?thesis
    using consistent_show [of "(s, after_cancel i tk)" g]
    by (simp add: Expire consistent_after_cancel)
next
  case (Configure kw)
  assume c: "consistent st"
  obtain s tk where st: "st = (s, tk)" by (cases st)
  from c st show ?thesis by (simp add: Configure consistent_configure)
qed

lemma consistent_run: "consistent st \<Longrightarrow> consistent (run es st)"
  by (induction es arbitrary: st) (simp_all add: consistent_step)

lemma defaults_keys: "map fst (defaults text delay) = option_keys"
  by (simp add: defaults_def option_keys_def)

lemma consistent_init:
  assumes "init m text delay kw tk0 = (Inr s0, tk)"
  shows "consistent (s0, tk)"
proof -
  define s where "s = \<lparr>master = m, opts' = defaults text delay, tipwindow' = None, id' = None,
                follow_mouse' = False\<rparr>"
  obtain r s1 where cf: "configure s kw = (r, s1)" by (cases "configure s kw")
  have f: "tipwindow' s1 = None" "id' s1 = None" "\<not> follow_mouse' s1"
    "map fst (opts' s1) = option_keys"
    using configure_fields [of s kw] cf by (simp_all add: s_def defaults_keys)
  from assms have "(s0 = s1 \<and> tk = bind ''<ButtonPress>'' Bound_leave
                          (bind ''<Leave>'' Bound_leave (bind ''<Enter>'' Bound_enter tk0))) \<or>
    (s0 = s1\<lparr>follow_mouse' := True\<rparr> \<and> tk = bind ''<Motion>'' Bound_motion (bind ''<ButtonPress>'' Bound_leave
                          (bind ''<Leave>'' Bound_leave (bind ''<Enter>'' Bound_enter tk0))))"
    unfolding init_def s_def [symmetric] Let_def cf
    by (simp split: sum.splits if_splits)
  then show ?thesis
  proof
    assume "s0 = s1 \<and> tk = bind ''<ButtonPress>'' Bound_leave
                          (bind ''<Leave>'' Bound_leave (bind ''<Enter>'' Bound_enter tk0))"
    with f show ?thesis by (simp add: consistent_def bind_def tk0_def)
  next
    assume "s0 = s1\<lparr>follow_mouse' := True\<rparr> \<and> tk = bind ''<Motion>'' Bound_motion (bind ''<ButtonPress>'' Bound_leave
                          (bind ''<Leave>'' Bound_leave (bind ''<Enter>'' Bound_enter tk0)))"
    with f show ?thesis by (simp add: consistent_def bind_def tk0_def)
  qed
qed

subsection \<open>What each method leaves as it is\<close>

lemma unschedule_frame:
  "opts' (fst (unschedule' st)) = opts' (fst st)"
  "follow_mouse' (fst (unschedule' st)) = follow_mouse' (fst st)"
  "tipwindow' (fst (unschedule' st)) = tipwindow' (fst st)"
  "id' (fst (unschedule' st)) = None"
  "toplevels (snd (unschedule' st)) = toplevels (snd st)"
  "next_toplevel (snd (unschedule' st)) = next_toplevel (snd st)"
  "next_timer (snd (unschedule' st)) = next_timer (snd st)"
  "bindings (snd (unschedule' st)) = bindings (snd st)"
  by (cases st; simp add: unschedule'_def after_cancel_def split: option.splits)+

lemma hide_frame:
  "opts' (fst (hide' st)) = opts' (fst st)"
  "follow_mouse' (fst (hide' st)) = follow_mouse' (fst st)"
  "tipwindow' (fst (hide' st)) = None"
  "id' (fst (hide' st)) = id' (fst st)"
  "timers (snd (hide' st)) = timers (snd st)"
  "next_toplevel (snd (hide' st)) = next_toplevel (snd st)"
  "next_timer (snd (hide' st)) = next_timer (snd st)"
  "bindings (snd (hide' st)) = bindings (snd st)"
  by (cases st; simp add: hide'_def destroy_def split: option.splits)+

lemma schedule_frame:
  "opts' (fst (snd (schedule' st))) = opts' (fst st)"
  "follow_mouse' (fst (snd (schedule' st))) = follow_mouse' (fst st)"
  "tipwindow' (fst (snd (schedule' st))) = tipwindow' (fst st)"
  "toplevels (snd (snd (schedule' st))) = toplevels (snd st)"
  "next_toplevel (snd (snd (schedule' st))) = next_toplevel (snd st)"
  "bindings (snd (snd (schedule' st))) = bindings (snd st)"
proof -
  obtain s tk where u: "unschedule' st = (s, tk)" by (cases "unschedule' st")
  have f: "opts' s = opts' (fst st)" "follow_mouse' s = follow_mouse' (fst st)"
    "tipwindow' s = tipwindow' (fst st)" "toplevels tk = toplevels (snd st)"
    "next_toplevel tk = next_toplevel (snd st)" "bindings tk = bindings (snd st)"
    using unschedule_frame [of st] u by simp_all
  show "opts' (fst (snd (schedule' st))) = opts' (fst st)"
    using f by (simp add: schedule'_def u after_def split: sum.splits)
  show "follow_mouse' (fst (snd (schedule' st))) = follow_mouse' (fst st)"
    using f by (simp add: schedule'_def u after_def split: sum.splits)
  show "tipwindow' (fst (snd (schedule' st))) = tipwindow' (fst st)"
    using f by (simp add: schedule'_def u after_def split: sum.splits)
  show "toplevels (snd (snd (schedule' st))) = toplevels (snd st)"
    using f by (simp add: schedule'_def u after_def split: sum.splits)
  show "next_toplevel (snd (snd (schedule' st))) = next_toplevel (snd st)"
    using f by (simp add: schedule'_def u after_def split: sum.splits)
  show "bindings (snd (snd (schedule' st))) = bindings (snd st)"
    using f by (simp add: schedule'_def u after_def split: sum.splits)
qed

lemma leave_frame:
  "opts' (fst (snd (leave st))) = opts' (fst st)"
  "follow_mouse' (fst (snd (leave st))) = follow_mouse' (fst st)"
  "next_toplevel (snd (snd (leave st))) = next_toplevel (snd st)"
  "bindings (snd (snd (leave st))) = bindings (snd st)"
  by (simp_all add: leave_def hide_frame unschedule_frame)

lemma motion_frame:
  "fst (snd (motion g st)) = fst st"
  "next_toplevel (snd (snd (motion g st))) = next_toplevel (snd st)"
  "bindings (snd (snd (motion g st))) = bindings (snd st)"
  "timers (snd (snd (motion g st))) = timers (snd st)"
  by (cases st; simp add: motion_def window_ops on_window_fields
        split: option.splits sum.splits prod.splits)+

lemma call_frame:
  "opts' (fst (snd (call h g st))) = opts' (fst st)"
  "follow_mouse' (fst (snd (call h g st))) = follow_mouse' (fst st)"
  "next_toplevel (snd (snd (call h g st))) = next_toplevel (snd st)"
  "bindings (snd (snd (call h g st))) = bindings (snd st)"
  by (cases h; simp add: enter_def schedule_frame leave_frame motion_frame)+

lemma dispatch_frame:
  "opts' (fst (dispatch bs sq g st)) = opts' (fst st) \<and>
   follow_mouse' (fst (dispatch bs sq g st)) = follow_mouse' (fst st) \<and>
   next_toplevel (snd (dispatch bs sq g st)) = next_toplevel (snd st) \<and>
   bindings (snd (dispatch bs sq g st)) = bindings (snd st)"
  by (induction bs sq g st rule: dispatch.induct) (simp_all add: call_frame)

lemma create_contents_frame:
  "fst (snd (create_contents st)) = fst st"
  "next_toplevel (snd (snd (create_contents st))) = next_toplevel (snd st)"
  by (cases st; simp add: create_contents_def pack_label_def on_window_fields
        split: sum.splits option.splits)+

lemma show_follow_mouse:
  "follow_mouse' (fst (snd (show' g st))) = follow_mouse' (fst st)"
proof -
  obtain s tk where st: "st = (s, tk)" by (cases st)
  have u: "follow_mouse' (fst (unschedule' (s, tk))) = follow_mouse' s"
    using unschedule_frame(2) [of "(s, tk)"] by simp
  have c: "s2 = s1" if "create_contents (s1, tk1) = (r, s2, tk2)" for s1 tk1 r s2 tk2
    using create_contents_frame(1) [of "(s1, tk1)"] that by simp
  show ?thesis
    unfolding st show'_def
    using u
    by (auto simp: Toplevel_def Let_def dest!: c split: sum.splits option.splits prod.splits)
qed

lemma show_disabled:
  "is_disabled s \<Longrightarrow> show' g (s, tk) = (Inr (), unschedule' (s, tk))"
  by (simp add: show'_def is_disabled_def)

lemma show_visible:
  "tipwindow' s = Some tw \<Longrightarrow>
   show' g (s, tk) =
     (case getitem (opts' s) ''state'' of
        Inl e \<Rightarrow> (Inl e, s, tk)
      | Inr v \<Rightarrow> (Inr (), if is_disabled s then unschedule' (s, tk) else (s, tk)))"
  by (simp add: show'_def is_disabled_def split: sum.splits)

lemma step_follow_mouse: "follow_mouse' (fst (step e st)) = follow_mouse' (fst st)"
proof (cases e)
  case (Deliver sq g)
  then show ?thesis by (simp add: dispatch_frame)
next
  case (Expire i g)
  obtain s tk where st: "st = (s, tk)" by (cases st)
  show ?thesis
    using show_follow_mouse [of g "(s, after_cancel i tk)"] by (simp add: Expire st)
next
  case (Configure kw)
  obtain s tk where st: "st = (s, tk)" by (cases st)
  show ?thesis using configure_fields [of s kw] by (simp add: Configure st)
qed

lemma run_follow_mouse: "follow_mouse' (fst (run es st)) = follow_mouse' (fst st)"
  by (induction es arbitrary: st) (simp_all add: step_follow_mouse)

lemma getitem_present: "k \<in> set (map fst d) \<Longrightarrow> \<exists>v. getitem d k = Inr v"
proof -
  assume "k \<in> set (map fst d)"
  then have "map_of d k \<noteq> None" by (simp add: map_of_eq_None_iff)
  then show ?thesis by (auto simp: getitem_def)
qed

subsection \<open>The constructor, and a disabled controller at rest\<close>

lemma init_start:
  assumes "init m text delay kw tk0 = (Inr s0, tk)"
  shows "idle (s0, tk)" and "next_timer tk = 0" and "next_toplevel tk = 0"
    and "follow_mouse' s0 = (\<exists>v. getitem (opts' s0) ''follow_mouse'' = Inr v \<and> truthy v)"
proof -
  define s where "s = \<lparr>master = m, opts' = defaults text delay, tipwindow' = None, id' = None,
                follow_mouse' = False\<rparr>"
  define tk3 where "tk3 = bind ''<ButtonPress>'' Bound_leave
                          (bind ''<Leave>'' Bound_leave (bind ''<Enter>'' Bound_enter tk0))"
  obtain r s1 where cf: "configure s kw = (r, s1)" by (cases "configure s kw")
  have f: "tipwindow' s1 = None" "id' s1 = None" "\<not> follow_mouse' s1"
    using configure_fields [of s kw] cf by (simp_all add: s_def)
  from assms have "(s0 = s1 \<and> tk = tk3 \<and>
                     (\<exists>v. getitem (opts' s1) ''follow_mouse'' = Inr v \<and> \<not> truthy v)) \<or>
    (s0 = s1\<lparr>follow_mouse' := True\<rparr> \<and> tk = bind ''<Motion>'' Bound_motion tk3 \<and>
       (\<exists>v. getitem (opts' s1) ''follow_mouse'' = Inr v \<and> truthy v))"
    unfolding init_def s_def [symmetric] tk3_def [symmetric] Let_def cf
    by (simp split: sum.splits if_splits)
  then have "idle (s0, tk) \<and> next_timer tk = 0 \<and> next_toplevel tk = 0 \<and>
    follow_mouse' s0 = (\<exists>v. getitem (opts' s0) ''follow_mouse'' = Inr v \<and> truthy v)"
  proof
    assume a: "s0 = s1 \<and> tk = tk3 \<and>
                 (\<exists>v. getitem (opts' s1) ''follow_mouse'' = Inr v \<and> \<not> truthy v)"
    then have "\<not> (\<exists>v. getitem (opts' s0) ''follow_mouse'' = Inr v \<and> truthy v)" by auto
    with a f show ?thesis by (simp add: idle_def tk3_def bind_def tk0_def)
  next
    assume a: "s0 = s1\<lparr>follow_mouse' := True\<rparr> \<and> tk = bind ''<Motion>'' Bound_motion tk3 \<and>
       (\<exists>v. getitem (opts' s1) ''follow_mouse'' = Inr v \<and> truthy v)"
    then have "\<exists>v. getitem (opts' s0) ''follow_mouse'' = Inr v \<and> truthy v" by auto
    with a f show ?thesis by (simp add: idle_def tk3_def bind_def tk0_def)
  qed
  then show "idle (s0, tk)" and "next_timer tk = 0" and "next_toplevel tk = 0"
    and "follow_mouse' s0 = (\<exists>v. getitem (opts' s0) ''follow_mouse'' = Inr v \<and> truthy v)"
    by simp_all
qed

lemma reachable_consistent:
  "init m text delay kw tk0 = (Inr s0, tk) \<Longrightarrow> consistent (run es (s0, tk))"
  by (simp add: consistent_init consistent_run)

lemma idle_unschedule: "idle st \<Longrightarrow> unschedule' st = st"
  by (cases st) (simp add: idle_def unschedule'_def)

lemma idle_hide: "idle st \<Longrightarrow> hide' st = st"
  by (cases st) (simp add: idle_def hide'_def)

lemma idle_leave: "idle st \<Longrightarrow> snd (leave st) = st"
  by (simp add: leave_def idle_unschedule idle_hide)

lemma idle_motion: "idle st \<Longrightarrow> snd (motion g st) = st"
  by (cases st) (simp add: idle_def motion_def)

lemma enter_disabled: "is_disabled (fst st) \<Longrightarrow> enter st = (Inr (), unschedule' st)"
proof -
  assume d: "is_disabled (fst st)"
  obtain s tk where u: "unschedule' st = (s, tk)" by (cases "unschedule' st")
  have "opts' s = opts' (fst st)" using unschedule_frame(1) [of st] u by simp
  with d show ?thesis
    by (simp add: enter_def schedule'_def u is_disabled_def)
qed

lemma idle_enter_disabled: "idle st \<Longrightarrow> is_disabled (fst st) \<Longrightarrow> snd (enter st) = st"
  by (simp add: enter_disabled idle_unschedule)

lemma idle_dispatch:
  "idle st \<Longrightarrow> (Bound_enter \<in> snd ` set (filter (\<lambda>b. fst b = sq) bs) \<Longrightarrow> is_disabled (fst st)) \<Longrightarrow>
   dispatch bs sq g st = st"
proof (induction bs sq g st rule: dispatch.induct)
  case (1 sq g st)
  show ?case by simp
next
  case (2 q h bs sq g st)
  show ?case
  proof (cases "q = sq")
    case False
    with 2 show ?thesis by simp
  next
    case True
    have "snd (call h g st) = st"
    proof (cases h)
      case Bound_enter
      with True "2.prems" show ?thesis by (simp add: idle_enter_disabled)
    next
      case Bound_leave
      with "2.prems" show ?thesis by (simp add: idle_leave)
    next
      case Bound_motion
      with "2.prems" show ?thesis by (simp add: idle_motion)
    qed
    with 2 True show ?thesis by simp
  qed
qed

lemma idle_step:
  assumes "consistent st" and "idle st" and "trigger e \<Longrightarrow> is_disabled (fst st)"
  shows "idle (step e st) \<and> next_timer (snd (step e st)) = next_timer (snd st) \<and>
         next_toplevel (snd (step e st)) = next_toplevel (snd st)"
proof (cases e)
  case (Deliver sq g)
  obtain s tk where st: "st = (s, tk)" by (cases st)
  have "Bound_enter \<in> snd ` set (filter (\<lambda>b. fst b = sq) (bindings tk)) \<Longrightarrow> sq = ''<Enter>''"
    using assms(1) by (auto simp: st consistent_def split: if_splits)
  then have "dispatch (bindings tk) sq g st = st"
    using assms(2,3) Deliver by (intro idle_dispatch) (auto simp: st)
  with assms(2) show ?thesis by (simp add: Deliver st)
next
  case (Expire i g)
  obtain s tk where st: "st = (s, tk)" by (cases st)
  from assms(2) show ?thesis by (simp add: Expire st idle_def)
next
  case (Configure kw)
  obtain s tk where st: "st = (s, tk)" by (cases st)
  from assms(2) configure_fields [of s kw] show ?thesis
    by (simp add: Configure st idle_def)
qed

lemma idle_run:
  "consistent st \<Longrightarrow> idle st \<Longrightarrow> disabled_throughout es st \<Longrightarrow>
   idle (run es st) \<and> next_timer (snd (run es st)) = next_timer (snd st) \<and>
   next_toplevel (snd (run es st)) = next_toplevel (snd st)"
proof (induction es arbitrary: st)
  case Nil
  then show ?case by simp
next
  case (Cons e es)
  from Cons.prems have t: "trigger e \<Longrightarrow> is_disabled (fst st)"
    by (simp split: if_splits)
  note s = idle_step [OF Cons.prems(1,2) t]
  have "consistent (step e st)" using Cons.prems(1) by (rule consistent_step)
  moreover have "idle (step e st)" using s by simp
  moreover have "disabled_throughout es (step e st)" using Cons.prems(3) by simp
  ultimately have "idle (run es (step e st)) \<and>
     next_timer (snd (run es (step e st))) = next_timer (snd (step e st)) \<and>
     next_toplevel (snd (run es (step e st))) = next_toplevel (snd (step e st))"
    by (rule Cons.IH)
  with s show ?case by simp
qed

lemma step_disabled_next_toplevel:
  assumes "trigger e \<Longrightarrow> is_disabled (fst st)"
  shows "next_toplevel (snd (step e st)) = next_toplevel (snd st)"
proof (cases e)
  case (Deliver sq g)
  then show ?thesis by (simp add: dispatch_frame)
next
  case (Expire i g)
  obtain s tk where st: "st = (s, tk)" by (cases st)
  from assms Expire st have d: "is_disabled s" by simp
  show ?thesis
    using unschedule_frame(6) [of "(s, after_cancel i tk)"]
    by (simp add: Expire st show_disabled [OF d] after_cancel_def)
next
  case (Configure kw)
  obtain s tk where st: "st = (s, tk)" by (cases st)
  show ?thesis by (simp add: Configure st)
qed

lemma run_disabled_next_toplevel:
  "disabled_throughout es st \<Longrightarrow> next_toplevel (snd (run es st)) = next_toplevel (snd st)"
proof (induction es arbitrary: st)
  case Nil
  show ?case by simp
next
  case (Cons e es)
  from Cons.prems have "trigger e \<Longrightarrow> is_disabled (fst st)" by (simp split: if_splits)
  then have "next_toplevel (snd (step e st)) = next_toplevel (snd st)"
    by (rule step_disabled_next_toplevel)
  moreover have "next_toplevel (snd (run es (step e st))) = next_toplevel (snd (step e st))"
    using Cons.prems by (intro Cons.IH) simp
  ultimately show ?case by simp
qed

lemma expire_disabled_idle:
  assumes "consistent st" and "is_disabled (fst st)" and "tipwindow' (fst st) = None"
    and "i \<in> set (map fst (timers (snd st)))"
  shows "idle (step (Expire i g) st)"
proof -
  obtain s tk where st: "st = (s, tk)" by (cases st)
  from assms(2) st have d: "is_disabled s" by simp
  have c: "consistent (s, after_cancel i tk)"
    using assms(1) st by (simp add: consistent_after_cancel)
  have e: "step (Expire i g) st = unschedule' (s, after_cancel i tk)"
    using assms(4) by (simp add: st show_disabled [OF d])
  have "toplevels tk = []"
    using assms(1,3) by (simp add: st consistent_def)
  then show ?thesis
    unfolding e idle_def
    using timers_unschedule [OF c] unschedule_frame(3,4,5) [of "(s, after_cancel i tk)"]
      assms(3) st
    by (simp add: after_cancel_def)
qed

subsection \<open>Events on consistent states\<close>

lemma deliver_enter: "consistent st \<Longrightarrow> step (Deliver ''<Enter>'' g) st = snd (enter st)"
  by (cases st) (simp add: consistent_def)

lemma deliver_leave: "consistent st \<Longrightarrow> step (Deliver ''<Leave>'' g) st = snd (leave st)"
  by (cases st) (simp add: consistent_def)

lemma deliver_press: "consistent st \<Longrightarrow> step (Deliver ''<ButtonPress>'' g) st = snd (leave st)"
proof -
  assume c: "consistent st"
  obtain s tk where st: "st = (s, tk)" by (cases st)
  from c have b: "bindings tk =
          [(''<Enter>'', Bound_enter), (''<Leave>'', Bound_leave),
           (''<ButtonPress>'', Bound_leave)] @
          (if follow_mouse' s then [(''<Motion>'', Bound_motion)] else [])"
    by (simp add: st consistent_def)
  show ?thesis by (simp add: st b)
qed

lemma consistent_timers:
  assumes "consistent st"
  shows "length (timers (snd st)) \<le> 1"
    and "set (map fst (timers (snd st))) \<subseteq> set (handles (id' (fst st)))"
    and "\<forall>i \<in> set (map fst (timers (snd st))). i < next_timer (snd st)"
proof -
  obtain s tk where st: "st = (s, tk)" by (cases st)
  from assms have t: "map fst (timers tk) = [] \<or> map fst (timers tk) = handles (id' s)"
    and n: "\<forall>i \<in> set (handles (id' s)). i < next_timer tk"
    by (simp_all add: st consistent_def)
  have l: "length (handles (id' s)) \<le> 1" by (cases "id' s") simp_all
  from t have "length (timers tk) \<le> 1"
  proof
    assume "map fst (timers tk) = []"
    then show ?thesis by simp
  next
    assume "map fst (timers tk) = handles (id' s)"
    then have "length (map fst (timers tk)) = length (handles (id' s))" by (rule arg_cong)
    with l show ?thesis by simp
  qed
  then show "length (timers (snd st)) \<le> 1" by (simp add: st)
  from t have "set (map fst (timers tk)) \<subseteq> set (handles (id' s))"
  proof
    assume "map fst (timers tk) = []"
    then have "timers tk = []" by simp
    then show ?thesis by simp
  next
    assume e: "map fst (timers tk) = handles (id' s)"
    show ?thesis unfolding e by (rule subset_refl)
  qed
  then show s: "set (map fst (timers (snd st))) \<subseteq> set (handles (id' (fst st)))"
    by (simp only: st fst_conv snd_conv)
  show "\<forall>i \<in> set (map fst (timers (snd st))). i < next_timer (snd st)"
    using s n by (auto simp: st)
qed

lemma consistent_toplevels:
  assumes "consistent st"
  shows "length (toplevels (snd st)) \<le> 1"
    and "map fst (toplevels (snd st)) = handles (tipwindow' (fst st))"
proof -
  obtain s tk where st: "st = (s, tk)" by (cases st)
  from assms show m: "map fst (toplevels (snd st)) = handles (tipwindow' (fst st))"
    by (simp add: st consistent_def)
  have "length (handles (tipwindow' s)) \<le> 1" by (cases "tipwindow' s") simp_all
  moreover from m have "length (map fst (toplevels tk)) = length (handles (tipwindow' s))"
    by (simp only: st fst_conv snd_conv)
  ultimately show "length (toplevels (snd st)) \<le> 1" by (simp add: st)
qed

lemma enter_timers:
  assumes "consistent st"
  shows "map fst (timers (snd (snd (enter st)))) =
           (if is_disabled (fst st) then [] else [next_timer (snd st)])"
proof -
  obtain s tk where u: "unschedule' st = (s, tk)" by (cases "unschedule' st")
  have t: "timers tk = []" using timers_unschedule [OF assms] u by simp
  have f: "opts' s = opts' (fst st)" "next_timer tk = next_timer (snd st)"
    using unschedule_frame(1,7) [of st] u by simp_all
  have k: "map fst (opts' s) = option_keys"
    using assms f(1) by (cases st) (simp add: consistent_def)
  obtain v where v: "getitem (opts' s) ''state'' = Inr v"
    using getitem_present [of "''state''" "opts' s"] k by (auto simp: option_keys_def)
  obtain ms where ms: "getitem (opts' s) ''delay'' = Inr ms"
    using getitem_present [of "''delay''" "opts' s"] k by (auto simp: option_keys_def)
  have d: "is_disabled (fst st) = (v = PyStr ''disabled'')"
    using v f(1) by (auto simp: is_disabled_def)
  show ?thesis
    using t f(2) by (simp add: enter_def schedule'_def u v ms d after_def)
qed

lemma leave_result:
  shows "fst (leave st) = Inr ()"
    and "id' (fst (snd (leave st))) = None"
    and "tipwindow' (fst (snd (leave st))) = None"
  by (simp_all add: leave_def hide_frame unschedule_frame)

lemma leave_idle: "consistent st \<Longrightarrow> idle (snd (leave st))"
proof -
  assume c: "consistent st"
  have t: "timers (snd (snd (leave st))) = []"
    using timers_unschedule [OF c] by (simp add: leave_def hide_frame)
  have "map fst (toplevels (snd (snd (leave st)))) = handles (tipwindow' (fst (snd (leave st))))"
    using consistent_leave [OF c] by (rule consistent_toplevels(2))
  then have "toplevels (snd (snd (leave st))) = []"
    by (simp add: leave_result)
  with t show ?thesis by (simp add: idle_def leave_result)
qed

lemma show_visible_result:
  assumes "tipwindow' s = Some tw"
  shows "snd (show' g (s, tk)) = (if is_disabled s then unschedule' (s, tk) else (s, tk))"
  using assms by (simp add: show_visible is_disabled_def split: sum.splits)

subsection \<open>Evaluating the concrete runs\<close>

lemmas model_defs = init_def tip0_def tkb_def tk0_def bind_def getitem_def defaults_def
  enter_def leave_def motion_def schedule'_def unschedule'_def hide'_def show'_def
  create_contents_def coords_def after_def after_cancel_def Toplevel_def destroy_def
  on_window_def withdraw_def deiconify_def wm_overrideredirect_def wm_geometry_def
  pack_label_def fmt_d_def is_disabled_def idle_def scenario7_def scenario6_def Let_def

lemma init_tip0: "init ''.b'' (PyStr ''Enough of this'') (PyInt 1500) [] tk0 = (Inr tip0, tkb)"
  by (simp add: model_defs)

section \<open>The claims\<close>

subsection \<open>Coordinate placement\<close>

text \<open>
  Claim C1, as stated: a follow-mouse placement that would overflow the bottom of the screen
  gets \<open>y = pointerScreenY - popupHeight - 30\<close>, and scenario 6 yields \<open>(900, 720)\<close>.
  The source subtracts from the \<^emph>\<open>shifted\<close> value: \<^verbatim>\<open>y = y - twy - 30\<close> with
  \<^verbatim>\<open>y = winfo_pointery() + 20\<close>. In scenario 6 the result is \<open>(900, 740)\<close>.
\<close>

theorem C1_counterexample:
  "tipwindow' (shown_tip True) = Some 0 \<and> follow_mouse' (shown_tip True) \<and>
   winfo_pointery scenario6 + 20 + winfo_reqheight scenario6 > winfo_screenheight scenario6 \<and>
   coords (shown_tip True) scenario6 = Inr (900, 740) \<and>
   coords (shown_tip True) scenario6 \<noteq> Inr (900, 720) \<and>
   coords (shown_tip True) scenario6 \<noteq>
     Inr (900, winfo_pointery scenario6 - winfo_reqheight scenario6 - 30)"
  by (simp add: coords_def shown_tip_def scenario6_def)

text \<open>
  Claim C1, amended: a follow-mouse placement that would overflow the bottom of the screen
  (\<open>pointerScreenY + 20 + popupHeight > screenHeight\<close>) gets
  \<open>y = pointerScreenY - popupHeight - 10\<close>; in scenario 6, \<^verbatim>\<open>coords\<close> returns \<open>(900, 740)\<close>.
\<close>

theorem C1_follow_mouse_flip:
  "(tipwindow' s \<noteq> None \<and> follow_mouse' s \<and>
    winfo_pointery g + 20 + winfo_reqheight g > winfo_screenheight g \<longrightarrow>
      (\<exists>x. coords s g = Inr (x, winfo_pointery g - winfo_reqheight g - 10))) \<and>
   coords (shown_tip True) scenario6 = Inr (900, 740)"
proof
  show "tipwindow' s \<noteq> None \<and> follow_mouse' s \<and>
    winfo_pointery g + 20 + winfo_reqheight g > winfo_screenheight g \<longrightarrow>
      (\<exists>x. coords s g = Inr (x, winfo_pointery g - winfo_reqheight g - 10))"
    by (auto simp: coords_def Let_def)
  show "coords (shown_tip True) scenario6 = Inr (900, 740)"
    by (simp add: coords_def shown_tip_def scenario6_def)
qed

theorem C1_follow_mouse_flip_witness:
  "tipwindow' (shown_tip True) \<noteq> None \<and> follow_mouse' (shown_tip True) \<and>
   winfo_pointery scenario6 + 20 + winfo_reqheight scenario6 > winfo_screenheight scenario6 \<and>
   (\<exists>x. coords (shown_tip True) scenario6 = Inr (x, 740))"
  using C1_follow_mouse_flip [of "shown_tip True" scenario6]
  by (simp add: shown_tip_def scenario6_def)

text \<open>
  Claim C2, as stated: whenever \<open>popupWidth \<ge> screenWidth\<close>, the x coordinate is 0. The
  source tests the right bound in an \<^verbatim>\<open>elif\<close>, and there assigns \<^verbatim>\<open>w - twx\<close>: a popup of
  width 200 on a screen of width 100 with the pointer at 150 is placed at \<open>x = -100\<close>.
\<close>

theorem C2_counterexample:
  "tipwindow' (shown_tip False) = Some 0 \<and>
   winfo_reqwidth wide_popup \<ge> winfo_screenwidth wide_popup \<and>
   coords (shown_tip False) wide_popup = Inr (- 100, 123) \<and>
   coords (shown_tip False) wide_popup \<noteq> Inr (0, 123)"
  by (simp add: coords_def shown_tip_def wide_popup_def)

text \<open>
  Claim C2, amended: the left bound is tested first and the right bound only when the left
  test fails. For \<open>popupWidth \<ge> screenWidth\<close> the x coordinate is 0 when
  \<open>pointerScreenX - popupWidth / 2 < 0\<close> or \<open>popupWidth = screenWidth\<close>, and is
  \<open>screenWidth - popupWidth\<close> otherwise; for \<open>popupWidth \<le> screenWidth\<close> it lies in
  \<open>[0, screenWidth - popupWidth]\<close>.
\<close>

theorem C2_clamp_x:
  assumes "coords s g = Inr (x, y)"
  shows "(winfo_reqwidth g \<ge> winfo_screenwidth g \<longrightarrow>
            x = (if of_int (winfo_pointerx g) - of_int (winfo_reqwidth g) / 2 < (0::rat)
                    \<or> winfo_reqwidth g = winfo_screenwidth g
                 then 0 else of_int (winfo_screenwidth g - winfo_reqwidth g))) \<and>
         (winfo_reqwidth g \<le> winfo_screenwidth g \<longrightarrow>
            0 \<le> x \<and> x \<le> of_int (winfo_screenwidth g - winfo_reqwidth g))"
  using assms
  by (auto simp: coords_def Let_def split: option.splits if_splits)

theorem C2_clamp_x_witness:
  "coords (shown_tip False) wide_popup = Inr (- 100, 123) \<and>
   winfo_reqwidth wide_popup \<ge> winfo_screenwidth wide_popup \<and>
   (- 100 :: rat) = of_int (winfo_screenwidth wide_popup - winfo_reqwidth wide_popup) \<and>
   coords (shown_tip True) scenario6 = Inr (900, 740) \<and>
   winfo_reqwidth scenario6 \<le> winfo_screenwidth scenario6 \<and>
   (0 :: rat) \<le> 900 \<and>
   (900 :: rat) \<le> of_int (winfo_screenwidth scenario6 - winfo_reqwidth scenario6)"
proof -
  have a: "coords (shown_tip False) wide_popup = Inr (- 100, 123)"
    by (simp add: coords_def shown_tip_def wide_popup_def)
  have b: "coords (shown_tip True) scenario6 = Inr (900, 740)"
    by (simp add: coords_def shown_tip_def scenario6_def)
  have c: "winfo_reqwidth wide_popup \<ge> winfo_screenwidth wide_popup \<and>
           (- 100 :: rat) = of_int (winfo_screenwidth wide_popup - winfo_reqwidth wide_popup)"
    using C2_clamp_x [OF a] by (simp add: wide_popup_def)
  have d: "winfo_reqwidth scenario6 \<le> winfo_screenwidth scenario6 \<and> (0 :: rat) \<le> 900 \<and>
           (900 :: rat) \<le> of_int (winfo_screenwidth scenario6 - winfo_reqwidth scenario6)"
    using C2_clamp_x [OF b] by (simp add: scenario6_def)
  from a b c d show ?thesis by blast
qed

text \<open>
  Claim C8: a placement that does not follow the mouse gets
  \<open>y = parentScreenY + parentHeight + 3\<close> when that position plus the popup height does not
  exceed the screen height, and \<open>y = parentScreenY - popupHeight - 3\<close> otherwise; with the
  parent at y = 100 of height 20, popup height 30 and screen height 800, \<open>y = 123\<close>.
\<close>

theorem C8_anchored_y:
  "(tipwindow' s \<noteq> None \<and> \<not> follow_mouse' s \<longrightarrow>
      (\<exists>x. coords s g =
         Inr (x, if winfo_rooty g + winfo_height g + 3 + winfo_reqheight g > winfo_screenheight g
                 then winfo_rooty g - winfo_reqheight g - 3
                 else winfo_rooty g + winfo_height g + 3))) \<and>
   (tipwindow' s \<noteq> None \<and> \<not> follow_mouse' s \<and> winfo_rooty g = 100 \<and> winfo_height g = 20 \<and>
    winfo_reqheight g = 30 \<and> winfo_screenheight g = 800 \<longrightarrow>
      (\<exists>x. coords s g = Inr (x, 123)))"
  by (auto simp: coords_def Let_def)

theorem C8_anchored_y_witness:
  "tipwindow' (shown_tip False) \<noteq> None \<and> \<not> follow_mouse' (shown_tip False) \<and>
   winfo_rooty scenario7 = 100 \<and> winfo_height scenario7 = 20 \<and>
   winfo_reqheight scenario7 = 30 \<and> winfo_screenheight scenario7 = 800 \<and>
   (\<exists>x. coords (shown_tip False) scenario7 = Inr (x, 123))"
  using C8_anchored_y [of "shown_tip False" scenario7]
  by (simp add: shown_tip_def scenario7_def)

subsection \<open>Configuration\<close>

text \<open>
  Claim C3: \<^verbatim>\<open>configure\<close> with a key outside the recognised options fails with an
  \<^verbatim>\<open>UnknownOptionError\<close> that names the key. The source builds the message
  \<^verbatim>\<open>KeyError: Unknown option: "foo"\<close> and then raises the string itself, so what the caller
  gets is Python's \<^verbatim>\<open>TypeError\<close> about raising a non-exception, the same for every key.
\<close>

theorem C3_unknown_key_raises_TypeError:
  "configure tip0 [(''foo'', PyInt 1)] =
     (Inl (TypeError ''exceptions must derive from BaseException''), tip0) \<and>
   fst (configure tip0 [(''foo'', PyInt 1)]) = fst (configure tip0 [(''bar'', PyInt 1)])"
  by (simp add: tip0_def defaults_def)

text \<open>
  Claim C4: \<^verbatim>\<open>configure\<close> without arguments returns the current option dictionary. The
  source has no \<^verbatim>\<open>return\<close>: the call returns \<^verbatim>\<open>None\<close>, whatever the controller.
\<close>

theorem C4_configure_returns_None:
  "configure s [] = (Inr PyNone, s) \<and>
   fst (configure tip0 []) \<noteq> Inr (PyDict (opts' tip0))"
  by simp

subsection \<open>The show and hide state machine\<close>

text \<open>
  Claim C5: in every event sequence in which the \<^verbatim>\<open>state\<close> option is \<^verbatim>\<open>'disabled'\<close> at every
  enter and at every timer firing, no popup window is ever created: the enter handler
  schedules no timer and stays IDLE, and a timer that fires while disabled leads to IDLE
  without creating a popup.

  The four parts of the statement: from any state, such a sequence creates no window (the
  count of windows ever created stays); from the constructor, such a sequence ends IDLE with
  no timer ever scheduled and no window ever created (and so does each of its prefixes,
  which are such sequences too); \<^verbatim>\<open>enter\<close> in a disabled state only unschedules, and changes
  nothing in IDLE; and a pending timer that expires while the controller is disabled and no
  popup is up leaves the controller IDLE and creates no window.
\<close>

theorem C5_disabled_never_shows:
  "(disabled_throughout es st \<longrightarrow>
      next_toplevel (snd (run es st)) = next_toplevel (snd st)) \<and>
   (init m text delay kw tk0 = (Inr s0, tk) \<and> disabled_throughout es1 (s0, tk) \<longrightarrow>
      idle (run es1 (s0, tk)) \<and> next_timer (snd (run es1 (s0, tk))) = 0 \<and>
      next_toplevel (snd (run es1 (s0, tk))) = 0) \<and>
   (is_disabled (fst st1) \<longrightarrow>
      enter st1 = (Inr (), unschedule' st1) \<and> (idle st1 \<longrightarrow> snd (enter st1) = st1)) \<and>
   (init m text delay kw tk0 = (Inr s0, tk) \<and> is_disabled (fst (run es2 (s0, tk))) \<and>
    tipwindow' (fst (run es2 (s0, tk))) = None \<and>
    i \<in> set (map fst (timers (snd (run es2 (s0, tk))))) \<longrightarrow>
      idle (step (Expire i g) (run es2 (s0, tk))) \<and>
      next_toplevel (snd (step (Expire i g) (run es2 (s0, tk)))) =
        next_toplevel (snd (run es2 (s0, tk))))"
proof (intro conjI impI)
  assume "disabled_throughout es st"
  then show "next_toplevel (snd (run es st)) = next_toplevel (snd st)"
    by (rule run_disabled_next_toplevel)
next
  assume a: "init m text delay kw tk0 = (Inr s0, tk) \<and> disabled_throughout es1 (s0, tk)"
  then have R: "init m text delay kw tk0 = (Inr s0, tk)" by simp
  note c = consistent_init [OF R] and i = init_start(1) [OF R]
    and n = init_start(2,3) [OF R]
  from a have d: "disabled_throughout es1 (s0, tk)" by simp
  note r = idle_run [OF c i d]
  from r show "idle (run es1 (s0, tk))" by simp
  from r n show "next_timer (snd (run es1 (s0, tk))) = 0" by simp
  from r n show "next_toplevel (snd (run es1 (s0, tk))) = 0" by simp
next
  assume "is_disabled (fst st1)"
  then show "enter st1 = (Inr (), unschedule' st1)" by (rule enter_disabled)
next
  assume "is_disabled (fst st1)" and "idle st1"
  then show "snd (enter st1) = st1" by (simp add: idle_enter_disabled)
next
  assume a: "init m text delay kw tk0 = (Inr s0, tk) \<and> is_disabled (fst (run es2 (s0, tk))) \<and>
    tipwindow' (fst (run es2 (s0, tk))) = None \<and>
    i \<in> set (map fst (timers (snd (run es2 (s0, tk)))))"
  then have "init m text delay kw tk0 = (Inr s0, tk)" by simp
  then have c: "consistent (run es2 (s0, tk))" by (rule reachable_consistent)
  from a show "idle (step (Expire i g) (run es2 (s0, tk)))"
    by (intro expire_disabled_idle [OF c]) simp_all
  from a have "trigger (Expire i g) \<Longrightarrow> is_disabled (fst (run es2 (s0, tk)))" by simp
  then show "next_toplevel (snd (step (Expire i g) (run es2 (s0, tk)))) =
        next_toplevel (snd (run es2 (s0, tk)))"
    by (rule step_disabled_next_toplevel)
qed

theorem C5_disabled_never_shows_witness:
  "disabled_throughout [Expire 0 scenario7, Deliver ''<Enter>'' scenario7]
     (run enter_then_disable (tip0, tkb)) \<and>
   next_toplevel (snd (run [Expire 0 scenario7, Deliver ''<Enter>'' scenario7]
     (run enter_then_disable (tip0, tkb)))) = 0 \<and>
   init ''.b'' (PyStr ''Enough of this'') (PyInt 1500) [] tk0 = (Inr tip0, tkb) \<and>
   disabled_throughout disabled_visit (tip0, tkb) \<and>
   idle (run disabled_visit (tip0, tkb)) \<and>
   next_timer (snd (run disabled_visit (tip0, tkb))) = 0 \<and>
   next_toplevel (snd (run disabled_visit (tip0, tkb))) = 0 \<and>
   is_disabled (fst (run [Configure [(''state'', PyStr ''disabled'')]] (tip0, tkb))) \<and>
   idle (run [Configure [(''state'', PyStr ''disabled'')]] (tip0, tkb)) \<and>
   snd (enter (run [Configure [(''state'', PyStr ''disabled'')]] (tip0, tkb))) =
     run [Configure [(''state'', PyStr ''disabled'')]] (tip0, tkb) \<and>
   is_disabled (fst (run enter_then_disable (tip0, tkb))) \<and>
   tipwindow' (fst (run enter_then_disable (tip0, tkb))) = None \<and>
   timers (snd (run enter_then_disable (tip0, tkb))) = [(0, PyInt 1500)] \<and>
   idle (step (Expire 0 scenario7) (run enter_then_disable (tip0, tkb))) \<and>
   next_toplevel (snd (step (Expire 0 scenario7) (run enter_then_disable (tip0, tkb)))) = 0"
proof -
  have h1: "disabled_throughout [Expire 0 scenario7, Deliver ''<Enter>'' scenario7]
     (run enter_then_disable (tip0, tkb))"
    by (simp add: model_defs enter_then_disable_def)
  have h2: "disabled_throughout disabled_visit (tip0, tkb)"
    by (simp add: model_defs disabled_visit_def)
  have h3: "is_disabled (fst (run [Configure [(''state'', PyStr ''disabled'')]] (tip0, tkb)))"
    "idle (run [Configure [(''state'', PyStr ''disabled'')]] (tip0, tkb))"
    by (simp_all add: model_defs)
  have h4: "is_disabled (fst (run enter_then_disable (tip0, tkb)))"
    "tipwindow' (fst (run enter_then_disable (tip0, tkb))) = None"
    "timers (snd (run enter_then_disable (tip0, tkb))) = [(0, PyInt 1500)]"
    "next_toplevel (snd (run enter_then_disable (tip0, tkb))) = 0"
    by (simp_all add: model_defs enter_then_disable_def)
  have h5: "0 \<in> set (map fst (timers (snd (run enter_then_disable (tip0, tkb)))))"
    unfolding h4(3) by simp
  note t = C5_disabled_never_shows
    [of "[Expire 0 scenario7, Deliver ''<Enter>'' scenario7]"
        "run enter_then_disable (tip0, tkb)"
        "''.b''" "PyStr ''Enough of this''" "PyInt 1500" "[]" tip0 tkb disabled_visit
        "run [Configure [(''state'', PyStr ''disabled'')]] (tip0, tkb)"
        enter_then_disable 0 scenario7]
  from t h1 have "next_toplevel (snd (run [Expire 0 scenario7, Deliver ''<Enter>'' scenario7]
      (run enter_then_disable (tip0, tkb)))) =
      next_toplevel (snd (run enter_then_disable (tip0, tkb)))"
    by blast
  then have c1: "next_toplevel (snd (run [Expire 0 scenario7, Deliver ''<Enter>'' scenario7]
      (run enter_then_disable (tip0, tkb)))) = 0"
    using h4(4) by (rule trans)
  from t init_tip0 h2 have c2: "idle (run disabled_visit (tip0, tkb))"
    "next_timer (snd (run disabled_visit (tip0, tkb))) = 0"
    "next_toplevel (snd (run disabled_visit (tip0, tkb))) = 0"
    by blast+
  from t h3 have c3:
    "snd (enter (run [Configure [(''state'', PyStr ''disabled'')]] (tip0, tkb))) =
       run [Configure [(''state'', PyStr ''disabled'')]] (tip0, tkb)"
    by blast
  from t init_tip0 h4(1,2) h5
  have c4: "idle (step (Expire 0 scenario7) (run enter_then_disable (tip0, tkb)))"
    and "next_toplevel (snd (step (Expire 0 scenario7) (run enter_then_disable (tip0, tkb)))) =
         next_toplevel (snd (run enter_then_disable (tip0, tkb)))"
    by blast+
  then have c5:
    "next_toplevel (snd (step (Expire 0 scenario7) (run enter_then_disable (tip0, tkb)))) = 0"
    using h4(4) by simp
  show ?thesis
    by (intro conjI) (fact h1 c1 init_tip0 h2 c2 h3 c3 h4 c4 c5)+
qed

text \<open>
  Claim C6: at every point of every event sequence the controller has at most one pending
  timer. Scheduling (on pointer enter) and hiding (the leave handler, the only caller of
  \<^verbatim>\<open>_hide\<close>, which runs \<^verbatim>\<open>_unschedule\<close> first) cancel the outstanding timer before they go
  on, so entering again before the timer fires restarts the delay: afterwards the one
  pending timer is the fresh handle, which differs from every handle pending before.
\<close>

theorem C6_at_most_one_timer:
  assumes "init m text delay kw tk0 = (Inr s0, tk)"
  shows "length (timers (snd (run es (s0, tk)))) \<le> 1 \<and>
         set (map fst (timers (snd (run es (s0, tk))))) \<subseteq>
           set (handles (id' (fst (run es (s0, tk))))) \<and>
         (\<forall>i \<in> set (map fst (timers (snd (run es (s0, tk))))).
            i < next_timer (snd (run es (s0, tk)))) \<and>
         map fst (timers (snd (step (Deliver ''<Enter>'' g) (run es (s0, tk))))) =
           (if is_disabled (fst (run es (s0, tk))) then []
            else [next_timer (snd (run es (s0, tk)))]) \<and>
         timers (snd (step (Deliver ''<Leave>'' g) (run es (s0, tk)))) = []"
proof -
  have c: "consistent (run es (s0, tk))" using assms by (rule reachable_consistent)
  have "timers (snd (snd (leave (run es (s0, tk))))) = []"
    using leave_idle [OF c] by (simp add: idle_def)
  then have "timers (snd (step (Deliver ''<Leave>'' g) (run es (s0, tk)))) = []"
    by (simp only: deliver_leave [OF c])
  moreover have "map fst (timers (snd (step (Deliver ''<Enter>'' g) (run es (s0, tk))))) =
           (if is_disabled (fst (run es (s0, tk))) then []
            else [next_timer (snd (run es (s0, tk)))])"
    using enter_timers [OF c] by (simp only: deliver_enter [OF c])
  ultimately show ?thesis
    using consistent_timers [OF c] by blast
qed

theorem C6_at_most_one_timer_witness:
  "init ''.b'' (PyStr ''Enough of this'') (PyInt 1500) [] tk0 = (Inr tip0, tkb) \<and>
   timers (snd (run [Deliver ''<Enter>'' scenario7] (tip0, tkb))) = [(0, PyInt 1500)] \<and>
   id' (fst (run [Deliver ''<Enter>'' scenario7] (tip0, tkb))) = Some 0 \<and>
   next_timer (snd (run [Deliver ''<Enter>'' scenario7] (tip0, tkb))) = 1 \<and>
   \<not> is_disabled (fst (run [Deliver ''<Enter>'' scenario7] (tip0, tkb))) \<and>
   map fst (timers (snd (step (Deliver ''<Enter>'' scenario7)
     (run [Deliver ''<Enter>'' scenario7] (tip0, tkb))))) = [1] \<and>
   timers (snd (step (Deliver ''<Leave>'' scenario7)
     (run [Deliver ''<Enter>'' scenario7] (tip0, tkb)))) = []"
proof -
  have h: "timers (snd (run [Deliver ''<Enter>'' scenario7] (tip0, tkb))) = [(0, PyInt 1500)]"
    "id' (fst (run [Deliver ''<Enter>'' scenario7] (tip0, tkb))) = Some 0"
    "next_timer (snd (run [Deliver ''<Enter>'' scenario7] (tip0, tkb))) = 1"
    "\<not> is_disabled (fst (run [Deliver ''<Enter>'' scenario7] (tip0, tkb)))"
    by (simp_all add: model_defs)
  note t = C6_at_most_one_timer [OF init_tip0, of "[Deliver ''<Enter>'' scenario7]" scenario7]
  from t have "map fst (timers (snd (step (Deliver ''<Enter>'' scenario7)
     (run [Deliver ''<Enter>'' scenario7] (tip0, tkb))))) =
       (if is_disabled (fst (run [Deliver ''<Enter>'' scenario7] (tip0, tkb))) then []
        else [next_timer (snd (run [Deliver ''<Enter>'' scenario7] (tip0, tkb)))])"
    by blast
  then have c1: "map fst (timers (snd (step (Deliver ''<Enter>'' scenario7)
     (run [Deliver ''<Enter>'' scenario7] (tip0, tkb))))) = [1]"
    by (simp only: h if_False)
  from t have c2: "timers (snd (step (Deliver ''<Leave>'' scenario7)
     (run [Deliver ''<Enter>'' scenario7] (tip0, tkb)))) = []"
    by blast
  show ?thesis
    by (intro conjI) (fact init_tip0 h c1 c2)+
qed

text \<open>
  Claim C7: in every state, a pointer-leave event, and identically a button-press event,
  cancels the pending timer if there is one and destroys the popup if one is up, and leaves
  the timer handle and the popup handle empty: the state IDLE.

  The handler returns normally with both handles empty from any state whatever; on every
  state that the controller can reach, both events run exactly this handler and the result
  is IDLE (no pending timer and no live tip window remain in the toolkit).
\<close>

theorem C7_leave_resets:
  "fst (leave st) = Inr () \<and>
   id' (fst (snd (leave st))) = None \<and>
   tipwindow' (fst (snd (leave st))) = None \<and>
   (init m text delay kw tk0 = (Inr s0, tk) \<longrightarrow>
      step (Deliver ''<Leave>'' g) (run es (s0, tk)) = snd (leave (run es (s0, tk))) \<and>
      step (Deliver ''<ButtonPress>'' g) (run es (s0, tk)) = snd (leave (run es (s0, tk))) \<and>
      idle (snd (leave (run es (s0, tk)))))"
proof (intro conjI impI)
  show "fst (leave st) = Inr ()" by (rule leave_result)
  show "id' (fst (snd (leave st))) = None" by (rule leave_result)
  show "tipwindow' (fst (snd (leave st))) = None" by (rule leave_result)
next
  assume "init m text delay kw tk0 = (Inr s0, tk)"
  then have c: "consistent (run es (s0, tk))" by (rule reachable_consistent)
  show "step (Deliver ''<Leave>'' g) (run es (s0, tk)) = snd (leave (run es (s0, tk)))"
    using c by (rule deliver_leave)
  show "step (Deliver ''<ButtonPress>'' g) (run es (s0, tk)) = snd (leave (run es (s0, tk)))"
    using c by (rule deliver_press)
  show "idle (snd (leave (run es (s0, tk))))"
    using c by (rule leave_idle)
qed

theorem C7_leave_resets_witness:
  "init ''.b'' (PyStr ''Enough of this'') (PyInt 1500) [] tk0 = (Inr tip0, tkb) \<and>
   tipwindow' (fst (run hover (tip0, tkb))) = Some 0 \<and>
   map fst (toplevels (snd (run hover (tip0, tkb)))) = [0] \<and>
   step (Deliver ''<Leave>'' scenario7) (run hover (tip0, tkb)) =
     snd (leave (run hover (tip0, tkb))) \<and>
   step (Deliver ''<ButtonPress>'' scenario7) (run hover (tip0, tkb)) =
     snd (leave (run hover (tip0, tkb))) \<and>
   idle (snd (leave (run hover (tip0, tkb))))"
proof -
  have h: "tipwindow' (fst (run hover (tip0, tkb))) = Some 0"
    "map fst (toplevels (snd (run hover (tip0, tkb)))) = [0]"
    by (simp_all add: model_defs hover_def)
  note t = C7_leave_resets [of "run hover (tip0, tkb)" "''.b''" "PyStr ''Enough of this''"
      "PyInt 1500" "[]" tip0 tkb scenario7 hover]
  from t init_tip0 have c:
    "step (Deliver ''<Leave>'' scenario7) (run hover (tip0, tkb)) =
       snd (leave (run hover (tip0, tkb)))"
    "step (Deliver ''<ButtonPress>'' scenario7) (run hover (tip0, tkb)) =
       snd (leave (run hover (tip0, tkb)))"
    "idle (snd (leave (run hover (tip0, tkb))))"
    by blast+
  show ?thesis
    by (intro conjI) (fact init_tip0 h c)+
qed

text \<open>
  Claim C9: the follow-mouse mode is fixed at construction. No event, and so no
  \<^verbatim>\<open>configure\<close> call (also one that sets the \<^verbatim>\<open>follow_mouse\<close> key), changes the flag
  \<^verbatim>\<open>_follow_mouse\<close> that \<^verbatim>\<open>motion\<close> and \<^verbatim>\<open>coords\<close> read; neither of the two reads the option
  dictionary; and after any events the flag is still the truth value that the
  \<^verbatim>\<open>follow_mouse\<close> option had when the constructor finished.
\<close>

theorem C9_follow_mouse_fixed:
  "follow_mouse' (fst (run es st)) = follow_mouse' (fst st) \<and>
   follow_mouse' (snd (configure s kw1)) = follow_mouse' s \<and>
   coords (s\<lparr>opts' := d\<rparr>) g = coords s g \<and>
   snd (snd (motion g (s\<lparr>opts' := d\<rparr>, tk1))) = snd (snd (motion g (s, tk1))) \<and>
   (init m text delay kw tk0 = (Inr s0, tk) \<longrightarrow>
      follow_mouse' (fst (run es (s0, tk))) =
        (\<exists>v. getitem (opts' s0) ''follow_mouse'' = Inr v \<and> truthy v))"
proof (intro conjI impI)
  show "follow_mouse' (fst (run es st)) = follow_mouse' (fst st)"
    by (rule run_follow_mouse)
  show "follow_mouse' (snd (configure s kw1)) = follow_mouse' s"
    using configure_fields [of s kw1] by simp
  show c: "coords (s\<lparr>opts' := d\<rparr>) g = coords s g"
    by (simp add: coords_def Let_def split: option.splits)
  show "snd (snd (motion g (s\<lparr>opts' := d\<rparr>, tk1))) = snd (snd (motion g (s, tk1)))"
    by (simp add: motion_def c split: option.splits sum.splits)
next
  assume R: "init m text delay kw tk0 = (Inr s0, tk)"
  have "follow_mouse' (fst (run es (s0, tk))) = follow_mouse' s0"
    using run_follow_mouse [of es "(s0, tk)"] by simp
  then show "follow_mouse' (fst (run es (s0, tk))) =
        (\<exists>v. getitem (opts' s0) ''follow_mouse'' = Inr v \<and> truthy v)"
    using init_start(4) [OF R] by simp
qed

theorem C9_follow_mouse_fixed_witness:
  "init ''.b'' (PyStr ''Enough of this'') (PyInt 1500) [] tk0 = (Inr tip0, tkb) \<and>
   getitem (opts' tip0) ''follow_mouse'' = Inr (PyInt 0) \<and>
   getitem (opts' (fst (run set_follow_later (tip0, tkb)))) ''follow_mouse'' = Inr (PyInt 1) \<and>
   follow_mouse' (fst (run set_follow_later (tip0, tkb))) = follow_mouse' tip0 \<and>
   \<not> follow_mouse' (fst (run set_follow_later (tip0, tkb)))"
proof -
  have h: "getitem (opts' tip0) ''follow_mouse'' = Inr (PyInt 0)"
    "getitem (opts' (fst (run set_follow_later (tip0, tkb)))) ''follow_mouse'' = Inr (PyInt 1)"
    by (simp_all add: model_defs set_follow_later_def)
  note t = C9_follow_mouse_fixed [of set_follow_later "(tip0, tkb)" tip0 "[]" "[]" scenario7
      tkb "''.b''" "PyStr ''Enough of this''" "PyInt 1500" "[]" tip0 tkb]
  from t have c1: "follow_mouse' (fst (run set_follow_later (tip0, tkb))) = follow_mouse' tip0"
    by simp
  from t init_tip0 have "follow_mouse' (fst (run set_follow_later (tip0, tkb))) =
        (\<exists>v. getitem (opts' tip0) ''follow_mouse'' = Inr v \<and> truthy v)"
    by blast
  then have c2: "\<not> follow_mouse' (fst (run set_follow_later (tip0, tkb)))"
    by (simp add: h(1))
  show ?thesis
    by (intro conjI) (fact init_tip0 h c1 c2)+
qed

text \<open>
  Claim C10, as stated: when \<^verbatim>\<open>_show\<close> runs while a popup is up, the controller state is
  left entirely unchanged. \<^verbatim>\<open>_show\<close> tests the \<^verbatim>\<open>state\<close> option first and, when it reads
  \<^verbatim>\<open>'disabled'\<close>, calls \<^verbatim>\<open>_unschedule\<close>, which clears \<^verbatim>\<open>_id\<close>: with the tip up, the pointer
  entering again and the application disabling the tip, the second timer's expiry changes the
  controller.
\<close>

theorem C10_counterexample:
  "init ''.b'' (PyStr ''Enough of this'') (PyInt 1500) [] tk0 = (Inr tip0, tkb) \<and>
   tipwindow' (fst (run shown_then_disable (tip0, tkb))) = Some 0 \<and>
   map fst (toplevels (snd (run shown_then_disable (tip0, tkb)))) = [0] \<and>
   id' (fst (run shown_then_disable (tip0, tkb))) = Some 1 \<and>
   id' (fst (step (Expire 1 scenario7) (run shown_then_disable (tip0, tkb)))) = None \<and>
   fst (step (Expire 1 scenario7) (run shown_then_disable (tip0, tkb))) \<noteq>
     fst (run shown_then_disable (tip0, tkb)) \<and>
   id' (fst (snd (show' scenario7 (run shown_then_disable (tip0, tkb))))) = None"
proof -
  have a: "tipwindow' (fst (run shown_then_disable (tip0, tkb))) = Some 0"
    "map fst (toplevels (snd (run shown_then_disable (tip0, tkb)))) = [0]"
    "id' (fst (run shown_then_disable (tip0, tkb))) = Some 1"
    "id' (fst (step (Expire 1 scenario7) (run shown_then_disable (tip0, tkb)))) = None"
    "id' (fst (snd (show' scenario7 (run shown_then_disable (tip0, tkb))))) = None"
    by (simp_all add: model_defs shown_then_disable_def)
  have "fst (step (Expire 1 scenario7) (run shown_then_disable (tip0, tkb))) \<noteq>
     fst (run shown_then_disable (tip0, tkb))"
    using a(3,4) by auto
  with a init_tip0 show ?thesis by blast
qed

text \<open>
  Claim C10, amended: when \<^verbatim>\<open>_show\<close> runs while a popup is up, no second popup window is
  created and the existing one is neither repositioned nor redrawn (the toolkit's windows
  and the popup handle stay as they are); the controller and the toolkit are left entirely
  unchanged unless the \<^verbatim>\<open>state\<close> option is \<^verbatim>\<open>'disabled'\<close>, in which case \<^verbatim>\<open>_unschedule\<close> runs
  (the timer handle is cleared and its timer cancelled) and nothing else changes. At most
  one popup window exists per controller at any time, the one \<^verbatim>\<open>_tipwindow\<close> names.
\<close>

theorem C10_show_when_visible:
  "(tipwindow' s = Some tw \<longrightarrow>
      snd (show' g (s, tk1)) = (if is_disabled s then unschedule' (s, tk1) else (s, tk1)) \<and>
      tipwindow' (fst (snd (show' g (s, tk1)))) = Some tw \<and>
      opts' (fst (snd (show' g (s, tk1)))) = opts' s \<and>
      follow_mouse' (fst (snd (show' g (s, tk1)))) = follow_mouse' s \<and>
      toplevels (snd (snd (show' g (s, tk1)))) = toplevels tk1 \<and>
      next_toplevel (snd (snd (show' g (s, tk1)))) = next_toplevel tk1) \<and>
   (init m text delay kw tk0 = (Inr s0, tk) \<longrightarrow>
      length (toplevels (snd (run es (s0, tk)))) \<le> 1 \<and>
      map fst (toplevels (snd (run es (s0, tk)))) =
        handles (tipwindow' (fst (run es (s0, tk)))))"
proof (intro conjI impI)
  assume v: "tipwindow' s = Some tw"
  show r: "snd (show' g (s, tk1)) = (if is_disabled s then unschedule' (s, tk1) else (s, tk1))"
    using v by (rule show_visible_result)
  show "tipwindow' (fst (snd (show' g (s, tk1)))) = Some tw"
    using v unschedule_frame(3) [of "(s, tk1)"] by (simp add: r)
  show "opts' (fst (snd (show' g (s, tk1)))) = opts' s"
    using unschedule_frame(1) [of "(s, tk1)"] by (simp add: r)
  show "follow_mouse' (fst (snd (show' g (s, tk1)))) = follow_mouse' s"
    using unschedule_frame(2) [of "(s, tk1)"] by (simp add: r)
  show "toplevels (snd (snd (show' g (s, tk1)))) = toplevels tk1"
    using unschedule_frame(5) [of "(s, tk1)"] by (simp add: r)
  show "next_toplevel (snd (snd (show' g (s, tk1)))) = next_toplevel tk1"
    using unschedule_frame(6) [of "(s, tk1)"] by (simp add: r)
next
  assume "init m text delay kw tk0 = (Inr s0, tk)"
  then have c: "consistent (run es (s0, tk))" by (rule reachable_consistent)
  show "length (toplevels (snd (run es (s0, tk)))) \<le> 1"
    using c by (rule consistent_toplevels)
  show "map fst (toplevels (snd (run es (s0, tk)))) =
        handles (tipwindow' (fst (run es (s0, tk))))"
    using c by (rule consistent_toplevels)
qed

theorem C10_show_when_visible_witness:
  "init ''.b'' (PyStr ''Enough of this'') (PyInt 1500) [] tk0 = (Inr tip0, tkb) \<and>
   tipwindow' (fst (run hover (tip0, tkb))) = Some 0 \<and>
   \<not> is_disabled (fst (run hover (tip0, tkb))) \<and>
   snd (show' scenario6 (fst (run hover (tip0, tkb)), snd (run hover (tip0, tkb)))) =
     (fst (run hover (tip0, tkb)), snd (run hover (tip0, tkb))) \<and>
   length (toplevels (snd (run hover (tip0, tkb)))) \<le> 1 \<and>
   map fst (toplevels (snd (run hover (tip0, tkb)))) = [0]"
proof -
  have h: "tipwindow' (fst (run hover (tip0, tkb))) = Some 0"
    "\<not> is_disabled (fst (run hover (tip0, tkb)))"
    by (simp_all add: model_defs hover_def)
  note t = C10_show_when_visible [of "fst (run hover (tip0, tkb))" 0 scenario6
      "snd (run hover (tip0, tkb))" "''.b''" "PyStr ''Enough of this''" "PyInt 1500" "[]"
      tip0 tkb hover]
  from t h(1) have "snd (show' scenario6 (fst (run hover (tip0, tkb)), snd (run hover (tip0, tkb)))) =
     (if is_disabled (fst (run hover (tip0, tkb)))
      then unschedule' (fst (run hover (tip0, tkb)), snd (run hover (tip0, tkb)))
      else (fst (run hover (tip0, tkb)), snd (run hover (tip0, tkb))))"
    by blast
  then have c1: "snd (show' scenario6 (fst (run hover (tip0, tkb)), snd (run hover (tip0, tkb)))) =
     (fst (run hover (tip0, tkb)), snd (run hover (tip0, tkb)))"
    by (simp only: h(2) if_False)
  from t init_tip0 have c2: "length (toplevels (snd (run hover (tip0, tkb)))) \<le> 1"
    and "map fst (toplevels (snd (run hover (tip0, tkb)))) =
        handles (tipwindow' (fst (run hover (tip0, tkb))))"
    by blast+
  then have c3: "map fst (toplevels (snd (run hover (tip0, tkb)))) = [0]"
    by (simp only: h(1) handles.simps)
  show ?thesis
    by (intro conjI) (fact init_tip0 h c1 c2 c3)+
qed

end
